theory Spec2Isabelle
  imports Main "HOL-Library.Word"
begin

unbundle bit_operations_syntax

section \<open>The MCP3208 read transaction of \<^verbatim>\<open>MCP3208_demo.py\<close>\<close>

text \<open>
  The script has one function with design content, \<^verbatim>\<open>readAdc(channel)\<close>: it checks
  the channel, packs a start bit, the single-ended selector and the channel into three
  bytes, exchanges them over the global SPI handle \<^verbatim>\<open>spi\<close> with one call of
  \<^verbatim>\<open>spi.xfer2\<close>, and combines the low nibble of the second received byte with the
  third received byte.

  Python integers are unbounded, so the channel, the configuration value and the bytes
  to send are \<open>int\<close>; \<^verbatim>\<open>|\<close>, \<^verbatim>\<open>&\<close>, \<^verbatim>\<open><<\<close> and \<^verbatim>\<open>>>\<close> are \<open>OR\<close>, \<open>AND\<close>,
  \<open>push_bit\<close> and \<open>drop_bit\<close> on \<open>int\<close> (two's complement, shift right rounding
  towards minus infinity, as in Python).
\<close>

subsection \<open>Exceptions and the bus\<close>

text \<open>
  A Python call either returns or raises. The exceptions that matter here are the
  \<^verbatim>\<open>IndexError\<close> of a list subscript and whatever the SPI driver raises (\<open>Other\<close>,
  with the driver's own payload). A result is \<open>'x exn + 'a\<close>, \<open>Inl\<close> for a raise.
\<close>

datatype 'x exn = IndexError | Other 'x

text \<open>
  \<^verbatim>\<open>spi.xfer2(sendBytes)\<close> takes the list of integers to clock out and returns the
  bytes clocked in on the same edges, as a list built from the driver's byte buffer, or
  raises. The handle is a process-wide global that the call may change, so it is passed
  in and returned. The driver is not part of the script: it is a parameter of the model.
\<close>

type_synonym ('x, 'bus) transport = "'bus \<Rightarrow> int list \<Rightarrow> ('x exn + 8 word list) \<times> 'bus"

subsection \<open>Configuration bits\<close>

definition START_BIT :: int where
  "START_BIT = 0x10"

definition CONFIG_SINGLE_ENDED_AN0_P_GND_N :: int where
  "CONFIG_SINGLE_ENDED_AN0_P_GND_N = 0x08"

subsection \<open>The command frame\<close>

text \<open>
  \<^verbatim>\<open>config=(START_BIT | CONFIG_SINGLE_ENDED_AN0_P_GND_N | channel)\<close>; Python's \<^verbatim>\<open>|\<close>
  associates to the left.
\<close>

definition config :: "int \<Rightarrow> int" where
  "config channel = (START_BIT OR CONFIG_SINGLE_ENDED_AN0_P_GND_N) OR channel"

text \<open>\<^verbatim>\<open>sendBytes = [(config>>2) & 0x07, (config<<6) & 0xC0, 0]\<close>\<close>

definition sendBytes :: "int \<Rightarrow> int list" where
  "sendBytes channel =
     [(drop_bit 2 (config channel)) AND 0x07,
      (push_bit 6 (config channel)) AND 0xC0,
      0]"

subsection \<open>The received value\<close>

text \<open>
  A list subscript \<^verbatim>\<open>xs[i]\<close>: a negative index counts from the end, and an index
  outside the list raises \<^verbatim>\<open>IndexError\<close>.
\<close>

definition getitem :: "'a list \<Rightarrow> int \<Rightarrow> 'x exn + 'a" where
  "getitem xs i =
     (if 0 \<le> i \<and> i < int (length xs) then Inr (xs ! nat i)
      else if i < 0 \<and> - int (length xs) \<le> i then Inr (xs ! nat (int (length xs) + i))
      else Inl IndexError)"

text \<open>
  \<^verbatim>\<open>value = ((rcvBytes[1] & 0x0f) << 8) | rcvBytes[2]\<close>, the subscripts evaluated
  left to right.
\<close>

definition rcvValue :: "int list \<Rightarrow> 'x exn + int" where
  "rcvValue rcvBytes =
     (case getitem rcvBytes 1 of
        Inl e \<Rightarrow> Inl e
      | Inr hi \<Rightarrow>
          (case getitem rcvBytes 2 of
             Inl e \<Rightarrow> Inl e
           | Inr lo \<Rightarrow> Inr ((push_bit 8 (hi AND 0x0f)) OR lo)))"

subsection \<open>readAdc\<close>

text \<open>
  The function, in the order of the source: the range check with its early
  \<^verbatim>\<open>return -1\<close>, the frame, the one call of \<^verbatim>\<open>spi.xfer2\<close> (an exception it raises
  leaves \<^verbatim>\<open>readAdc\<close> as it is, there being no \<^verbatim>\<open>try\<close> in the function), the value.
  The received bytes reach Python as integers 0..255 (\<open>uint\<close>).
\<close>

definition readAdc :: "('x, 'bus) transport \<Rightarrow> 'bus \<Rightarrow> int \<Rightarrow> ('x exn + int) \<times> 'bus" where
  "readAdc xfer2 spi channel =
     (if channel > 7 \<or> channel < 0 then (Inr (- 1), spi)
      else
        (case xfer2 spi (sendBytes channel) of
           (Inl e, spi') \<Rightarrow> (Inl e, spi')
         | (Inr rcv, spi') \<Rightarrow> (rcvValue (map uint rcv), spi')))"

subsection \<open>Observing the bus\<close>

text \<open>
  To speak about what is sent, and how often, a transport is wrapped so that every call
  appends the frame it was given to a log kept beside the handle. The wrapper changes
  neither the response nor the handle of the transport it wraps.
\<close>

definition logged :: "('x, 'bus) transport \<Rightarrow> ('x, 'bus \<times> int list list) transport" where
  "logged xfer2 =
     (\<lambda>(spi, log) bytes.
        case xfer2 spi bytes of (r, spi') \<Rightarrow> (r, (spi', log @ [bytes])))"

subsection \<open>A scripted bus\<close>

text \<open>
  A transport for concrete runs: the handle is the queue of responses still to come.
  Each exchange answers with the next one; on an empty queue the exchange raises.
\<close>

definition scripted :: "(string, 8 word list list) transport" where
  "scripted =
     (\<lambda>queue bytes.
        case queue of
          [] \<Rightarrow> (Inl (Other ''EIO''), [])
        | r # rest \<Rightarrow> (Inr r, rest))"

section \<open>Basic facts\<close>

lemma config_eq: "config c = 0x18 OR c"
  by (simp add: config_def START_BIT_def CONFIG_SINGLE_ENDED_AN0_P_GND_N_def)

lemma sendBytes_eq:
  "sendBytes c = [drop_bit 2 (0x18 OR c) AND 0x07, push_bit 6 (0x18 OR c) AND 0xC0, 0]"
  by (simp add: sendBytes_def config_eq)

lemma channel_cases:
  assumes "0 \<le> c" and "c \<le> 7"
  shows "c \<in> {0, 1, 2, 3, 4, 5, 6, 7::int}"
  using assms by auto

lemma readAdc_invalid:
  "c > 7 \<or> c < 0 \<Longrightarrow> readAdc xfer2 spi c = (Inr (- 1), spi)"
  by (simp add: readAdc_def)

lemma readAdc_valid:
  assumes "0 \<le> c" and "c \<le> 7"
  shows "readAdc xfer2 spi c =
     (case fst (xfer2 spi (sendBytes c)) of
        Inl e \<Rightarrow> Inl e
      | Inr rcv \<Rightarrow> rcvValue (map uint rcv),
      snd (xfer2 spi (sendBytes c)))"
  using assms by (auto simp add: readAdc_def split: prod.splits sum.splits)

lemma logged_fst: "fst (logged xfer2 (spi, log) bytes) = fst (xfer2 spi bytes)"
  by (simp add: logged_def split: prod.splits)

lemma logged_snd:
  "snd (logged xfer2 (spi, log) bytes) = (snd (xfer2 spi bytes), log @ [bytes])"
  by (simp add: logged_def split: prod.splits)

lemma readAdc_logged_valid:
  assumes "0 \<le> c" and "c \<le> 7"
  shows "readAdc (logged xfer2) (spi, log) c =
     (case fst (xfer2 spi (sendBytes c)) of
        Inl e \<Rightarrow> Inl e
      | Inr rcv \<Rightarrow> rcvValue (map uint rcv),
      snd (xfer2 spi (sendBytes c)), log @ [sendBytes c])"
  by (simp only: readAdc_valid [OF assms] logged_fst logged_snd)

subsection \<open>The value as arithmetic\<close>

lemma nibble_eq_mod: "(h::int) AND 0x0f = h mod 16"
proof -
  have "h AND mask 4 = h mod 2 ^ 4"
    by (simp only: take_bit_eq_mask [symmetric] take_bit_eq_mod)
  then show ?thesis by (simp add: mask_numeral)
qed

lemma value_arith:
  fixes b c :: "8 word"
  shows "push_bit 8 (uint b AND 0x0f) OR uint c = 256 * (uint b mod 16) + uint c"
proof -
  have lo: "take_bit 8 (uint c) = uint c"
    using uint_bounded [of c] by (simp add: take_bit_int_eq_self)
  have "push_bit 8 (uint b AND 0x0f) OR uint c = concat_bit 8 (uint c) (uint b AND 0x0f)"
    by (simp add: concat_bit_def lo or.commute)
  also have "\<dots> = take_bit 8 (uint c) + push_bit 8 (uint b AND 0x0f)"
    by (rule concat_bit_eq)
  also have "\<dots> = 256 * (uint b mod 16) + uint c"
    by (simp add: lo nibble_eq_mod push_bit_eq_mult)
  finally show ?thesis .
qed

lemma value_range:
  fixes b c :: "8 word"
  shows "0 \<le> push_bit 8 (uint b AND 0x0f) OR uint c
       \<and> push_bit 8 (uint b AND 0x0f) OR uint c \<le> 4095"
proof -
  have "uint b mod 16 \<le> 15" by simp
  moreover have "0 \<le> uint b mod 16" by simp
  moreover have "uint c < 256" using uint_bounded [of c] by simp
  moreover have "0 \<le> uint c" by simp
  ultimately have "0 \<le> 256 * (uint b mod 16) + uint c
                 \<and> 256 * (uint b mod 16) + uint c \<le> 4095"
    by linarith
  then show ?thesis by (simp only: value_arith)
qed

lemma rcvValue_3: "rcvValue [a, b, c] = Inr (push_bit 8 (b AND 0x0f) OR c)"
  by (simp add: rcvValue_def getitem_def)

lemma rcvValue_bytes:
  fixes r0 r1 r2 :: "8 word"
  shows "rcvValue (map uint [r0, r1, r2]) = Inr (push_bit 8 (uint r1 AND 0x0f) OR uint r2)"
  by (simp only: list.map rcvValue_3)

lemma rcvValue_Inr:
  fixes rcv :: "8 word list"
  assumes "rcvValue (map uint rcv) = Inr v"
  shows "v = push_bit 8 (uint (rcv ! 1) AND 0x0f) OR uint (rcv ! 2)"
  using assms
  by (auto simp add: rcvValue_def getitem_def split: if_splits sum.splits)

lemma rcvValue_range:
  fixes rcv :: "8 word list"
  assumes "rcvValue (map uint rcv) = Inr v"
  shows "0 \<le> v \<and> v \<le> 4095"
  unfolding rcvValue_Inr [OF assms] by (rule value_range)

lemma channel_of_frame:
  assumes "0 \<le> c" and "c \<le> 7"
  shows "(push_bit 2 ((sendBytes c ! 0) AND 0x01)) OR (drop_bit 6 (sendBytes c ! 1)) = c"
proof -
  from assms have "c \<in> {0, 1, 2, 3, 4, 5, 6, 7::int}" by (rule channel_cases)
  then show ?thesis by (auto simp add: sendBytes_eq)
qed

section \<open>The command frame\<close>

text \<open>
  Claim C1. For every channel \<open>c\<close> with \<open>0 \<le> c \<le> 7\<close>, the frame that \<^verbatim>\<open>readAdc\<close>
  hands to the transport (the one entry it adds to the log) is
  \<^verbatim>\<open>[((0x18 | c) >> 2) & 0x07, ((0x18 | c) << 6) & 0xC0, 0x00]\<close>, and the configuration
  value \<^verbatim>\<open>0x18 | c\<close> is the start bit \<^verbatim>\<open>0x10\<close> OR the single-ended selector
  \<^verbatim>\<open>0x08\<close> OR the channel.
\<close>

theorem readAdc_command_frame:
  assumes "0 \<le> c" and "c \<le> 7"
  shows "snd (snd (readAdc (logged xfer2) (spi, log) c)) =
           log @ [[(drop_bit 2 (0x18 OR c)) AND 0x07, (push_bit 6 (0x18 OR c)) AND 0xC0, 0x00]]
       \<and> sendBytes c =
           [(drop_bit 2 (0x18 OR c)) AND 0x07, (push_bit 6 (0x18 OR c)) AND 0xC0, 0x00]
       \<and> config c = 0x18 OR c
       \<and> config c = (0x10 OR 0x08) OR c"
proof -
  have "snd (snd (readAdc (logged xfer2) (spi, log) c)) = log @ [sendBytes c]"
    by (simp add: readAdc_logged_valid [OF assms])
  moreover have "config c = (0x10 OR 0x08) OR c"
    by (simp add: config_def START_BIT_def CONFIG_SINGLE_ENDED_AN0_P_GND_N_def)
  ultimately show ?thesis
    by (simp add: sendBytes_eq config_eq)
qed

theorem readAdc_command_frame_witness:
  "(0::int) \<le> 5 \<and> (5::int) \<le> 7
   \<and> snd (snd (readAdc (logged scripted) ([[0, 1, 2]], [[6, 0, 0]]) 5)) = [[6, 0, 0], [7, 0x40, 0]]
   \<and> sendBytes 5 = [7, 0x40, 0]
   \<and> config 5 = 0x1D"
  using readAdc_command_frame [where c = 5 and ?xfer2.0 = scripted and spi = "[[0, 1, 2]]"
      and log = "[[6, 0, 0]]"]
  by simp

text \<open>
  Claim C5. For channel 0 the frame is \<^verbatim>\<open>[0x06, 0x00, 0x00]\<close>; for channel 7 the
  configuration value is \<^verbatim>\<open>0x1F\<close> and the frame is \<^verbatim>\<open>[0x07, 0xC0, 0x00]\<close>. These are
  the frames \<^verbatim>\<open>readAdc\<close> puts on the bus for these channels.
\<close>

theorem readAdc_frames_0_7:
  "sendBytes 0 = [0x06, 0x00, 0x00]
   \<and> config 7 = 0x1F
   \<and> sendBytes 7 = [0x07, 0xC0, 0x00]
   \<and> snd (snd (readAdc (logged xfer2) (spi, log) 0)) = log @ [[0x06, 0x00, 0x00]]
   \<and> snd (snd (readAdc (logged xfer2) (spi, log) 7)) = log @ [[0x07, 0xC0, 0x00]]"
  by (simp add: readAdc_logged_valid sendBytes_eq config_eq)

text \<open>
  Claim C9. The encoding is injective on the valid channels: two distinct channels in
  \<open>0..7\<close> give different frames, on the bus as well, and the channel is read back from
  a frame as bit 0 of byte 0 followed by bits 7 and 6 of byte 1.
\<close>

theorem sendBytes_injective:
  assumes "0 \<le> c1" and "c1 \<le> 7" and "0 \<le> c2" and "c2 \<le> 7" and "c1 \<noteq> c2"
  shows "sendBytes c1 \<noteq> sendBytes c2
       \<and> (push_bit 2 ((sendBytes c1 ! 0) AND 0x01)) OR (drop_bit 6 (sendBytes c1 ! 1)) = c1
       \<and> (push_bit 2 ((sendBytes c2 ! 0) AND 0x01)) OR (drop_bit 6 (sendBytes c2 ! 1)) = c2
       \<and> snd (snd (readAdc (logged xfer2) (spi, log) c1)) \<noteq>
           snd (snd (readAdc (logged xfer2) (spi, log) c2))"
proof -
  have r1: "(push_bit 2 ((sendBytes c1 ! 0) AND 0x01)) OR (drop_bit 6 (sendBytes c1 ! 1)) = c1"
    using assms(1,2) by (rule channel_of_frame)
  have r2: "(push_bit 2 ((sendBytes c2 ! 0) AND 0x01)) OR (drop_bit 6 (sendBytes c2 ! 1)) = c2"
    using assms(3,4) by (rule channel_of_frame)
  have ne: "sendBytes c1 \<noteq> sendBytes c2"
  proof
    assume "sendBytes c1 = sendBytes c2"
    with r1 r2 have "c1 = c2" by simp
    with assms(5) show False by simp
  qed
  have "snd (snd (readAdc (logged xfer2) (spi, log) c1)) = log @ [sendBytes c1]"
    by (simp add: readAdc_logged_valid [OF assms(1,2)])
  moreover have "snd (snd (readAdc (logged xfer2) (spi, log) c2)) = log @ [sendBytes c2]"
    by (simp add: readAdc_logged_valid [OF assms(3,4)])
  ultimately show ?thesis using r1 r2 ne by simp
qed

theorem sendBytes_injective_witness:
  "(0::int) \<le> 3 \<and> (3::int) \<le> 7 \<and> (0::int) \<le> 4 \<and> (4::int) \<le> 7 \<and> (3::int) \<noteq> 4
   \<and> sendBytes 3 = [6, 0xC0, 0] \<and> sendBytes 4 = [7, 0, 0]
   \<and> sendBytes 3 \<noteq> sendBytes 4
   \<and> (push_bit 2 ((sendBytes 3 ! 0) AND 0x01)) OR (drop_bit 6 (sendBytes 3 ! 1)) = 3"
  using sendBytes_injective [where ?c1.0 = 3 and ?c2.0 = 4 and ?xfer2.0 = scripted
      and spi = "[]" and log = "[]"]
  by (simp add: sendBytes_eq)

section \<open>The decoded value\<close>

text \<open>
  Claim C2. For every three-byte response \<open>[pad, hi, lo]\<close> to a valid channel's
  exchange, \<^verbatim>\<open>readAdc\<close> returns \<^verbatim>\<open>((response[1] & 0x0F) << 8) | response[2]\<close>; the
  response \<^verbatim>\<open>[0x00, 0x0A, 0xFF]\<close> decodes to 2815, \<^verbatim>\<open>[0x00, 0x00, 0x00]\<close> to 0 and
  \<^verbatim>\<open>[0x00, 0x0F, 0xFF]\<close> to 4095.
\<close>

theorem readAdc_decode:
  fixes xfer2 :: "('x, 'bus) transport" and pad hi lo :: "8 word"
  assumes "0 \<le> c" and "c \<le> 7"
    and "fst (xfer2 spi (sendBytes c)) = Inr [pad, hi, lo]"
  shows "fst (readAdc xfer2 spi c) = Inr ((push_bit 8 (uint hi AND 0x0F)) OR uint lo)
       \<and> rcvValue (map uint [pad, hi, lo]) =
           (Inr ((push_bit 8 (uint hi AND 0x0F)) OR uint lo) :: 'x exn + int)
       \<and> rcvValue (map uint [0x00, 0x0A, 0xFF :: 8 word]) = (Inr 2815 :: 'x exn + int)
       \<and> rcvValue (map uint [0x00, 0x00, 0x00 :: 8 word]) = (Inr 0 :: 'x exn + int)
       \<and> rcvValue (map uint [0x00, 0x0F, 0xFF :: 8 word]) = (Inr 4095 :: 'x exn + int)"
proof -
  have "fst (readAdc xfer2 spi c) = rcvValue (map uint [pad, hi, lo])"
    by (simp add: readAdc_valid [OF assms(1,2)] assms(3))
  then show ?thesis
    by (simp add: rcvValue_3)
qed

theorem readAdc_decode_witness:
  "(0::int) \<le> 3 \<and> (3::int) \<le> 7
   \<and> fst (scripted [[0x00, 0x0A, 0xFF]] (sendBytes 3)) = Inr [0x00, 0x0A, 0xFF]
   \<and> fst (readAdc scripted [[0x00, 0x0A, 0xFF]] 3) = Inr 2815"
  using readAdc_decode [where c = 3 and ?xfer2.0 = scripted and spi = "[[0x00, 0x0A, 0xFF]]"
      and pad = "0x00" and hi = "0x0A" and lo = "0xFF"]
  by (simp add: scripted_def)

text \<open>
  Claim C4. Whatever the three response bytes are, the value \<^verbatim>\<open>readAdc\<close> returns for
  a valid channel lies in \<open>0..4095\<close>: it is 256 times the low nibble of byte 1 plus
  byte 2, so byte 0 and the high nibble of byte 1 add nothing.
\<close>

theorem readAdc_value_range:
  fixes pad hi lo :: "8 word"
  assumes "0 \<le> c" and "c \<le> 7"
    and "fst (xfer2 spi (sendBytes c)) = Inr [pad, hi, lo]"
  shows "\<exists>v. fst (readAdc xfer2 spi c) = Inr v \<and> 0 \<le> v \<and> v \<le> 4095
           \<and> v = 256 * (uint hi mod 16) + uint lo"
proof -
  have "fst (readAdc xfer2 spi c) = rcvValue (map uint [pad, hi, lo])"
    by (simp add: readAdc_valid [OF assms(1,2)] assms(3))
  then have eq: "fst (readAdc xfer2 spi c) = Inr (push_bit 8 (uint hi AND 0x0f) OR uint lo)"
    by (simp only: rcvValue_bytes)
  from value_range [of hi lo] value_arith [of hi lo] eq show ?thesis
    by (intro exI [of _ "push_bit 8 (uint hi AND 0x0f) OR uint lo"]) simp
qed

theorem readAdc_value_range_witness:
  "(0::int) \<le> 0 \<and> (0::int) \<le> 7
   \<and> fst (scripted [[0xFF, 0xFF, 0xFF]] (sendBytes 0)) = Inr [0xFF, 0xFF, 0xFF]
   \<and> (\<exists>v. fst (readAdc scripted [[0xFF, 0xFF, 0xFF]] 0) = Inr v \<and> 0 \<le> v \<and> v \<le> 4095
         \<and> v = 4095)"
  using readAdc_value_range [where c = 0 and ?xfer2.0 = scripted and spi = "[[0xFF, 0xFF, 0xFF]]"
      and pad = "0xFF" and hi = "0xFF" and lo = "0xFF"]
  by (simp add: scripted_def)

text \<open>
  Claim C10. The value does not depend on response byte 0 nor on the high nibble of
  response byte 1: two exchanges whose three-byte responses agree on the low nibble of
  byte 1 and on byte 2 make \<^verbatim>\<open>readAdc\<close> return the same value, whichever valid
  channels, transports and handles are involved.
\<close>

theorem readAdc_decode_independent:
  fixes xfer2 :: "('x, 'bus) transport" and xfer2' :: "('x, 'bus2) transport"
    and a0 a1 a2 b0 b1 b2 :: "8 word"
  assumes "0 \<le> c" and "c \<le> 7" and "0 \<le> c'" and "c' \<le> 7"
    and "fst (xfer2 spi (sendBytes c)) = Inr [a0, a1, a2]"
    and "fst (xfer2' spi' (sendBytes c')) = Inr [b0, b1, b2]"
    and "a1 AND 0x0F = b1 AND 0x0F" and "a2 = b2"
  shows "fst (readAdc xfer2 spi c) = fst (readAdc xfer2' spi' c')"
proof -
  have "uint a1 AND 0x0f = uint (a1 AND 0x0F)"
    by (simp add: uint_and)
  also have "\<dots> = uint (b1 AND 0x0F)"
    by (simp only: assms(7))
  also have "\<dots> = uint b1 AND 0x0f"
    by (simp add: uint_and)
  finally have nib: "uint a1 AND 0x0f = uint b1 AND 0x0f" .
  have "fst (readAdc xfer2 spi c) = Inr (push_bit 8 (uint a1 AND 0x0f) OR uint a2)"
    by (simp only: readAdc_valid [OF assms(1,2)] assms(5) fst_conv sum.case rcvValue_bytes)
  moreover have "fst (readAdc xfer2' spi' c') = Inr (push_bit 8 (uint b1 AND 0x0f) OR uint b2)"
    by (simp only: readAdc_valid [OF assms(3,4)] assms(6) fst_conv sum.case rcvValue_bytes)
  ultimately show ?thesis
    by (simp only: nib assms(8))
qed

theorem readAdc_decode_independent_witness:
  "(0::int) \<le> 0 \<and> (0::int) \<le> 7 \<and> (0::int) \<le> 7 \<and> (7::int) \<le> 7
   \<and> fst (scripted [[0x00, 0x0A, 0xFF]] (sendBytes 0)) = Inr [0x00, 0x0A, 0xFF]
   \<and> fst (scripted [[0xFF, 0xFA, 0xFF]] (sendBytes 7)) = Inr [0xFF, 0xFA, 0xFF]
   \<and> (0x0A :: 8 word) AND 0x0F = 0xFA AND 0x0F
   \<and> fst (readAdc scripted [[0x00, 0x0A, 0xFF]] 0) = fst (readAdc scripted [[0xFF, 0xFA, 0xFF]] 7)
   \<and> fst (readAdc scripted [[0xFF, 0xFA, 0xFF]] 7) = Inr 2815"
  using readAdc_decode_independent [where c = 0 and c' = 7 and ?xfer2.0 = scripted
      and xfer2' = scripted and spi = "[[0x00, 0x0A, 0xFF]]" and spi' = "[[0xFF, 0xFA, 0xFF]]"
      and ?a0.0 = "0x00" and ?a1.0 = "0x0A" and ?a2.0 = "0xFF"
      and ?b0.0 = "0xFF" and ?b1.0 = "0xFA" and ?b2.0 = "0xFF"]
  by (simp add: scripted_def readAdc_def rcvValue_3)

section \<open>Channels out of range\<close>

text \<open>
  Claim C3, as the code has it. For every channel outside \<open>0..7\<close>, \<^verbatim>\<open>readAdc\<close>
  raises nothing: it returns the integer \<open>-1\<close> as an ordinary result, and it makes no
  transport call, so the handle and the log of frames sent are as they were.
\<close>

theorem readAdc_invalid_channel:
  assumes "c > 7 \<or> c < 0"
  shows "readAdc (logged xfer2) (spi, log) c = (Inr (- 1), (spi, log))"
  using assms by (rule readAdc_invalid)

theorem readAdc_invalid_channel_witness:
  "((8::int) > 7 \<or> (8::int) < 0)
   \<and> readAdc (logged scripted) ([[0, 0, 0]], []) 8 = (Inr (- 1), ([[0, 0, 0]], []))"
  using readAdc_invalid_channel [where c = 8 and ?xfer2.0 = scripted and spi = "[[0, 0, 0]]"
      and log = "[]"]
  by simp

text \<open>
  Claim C3, as the specification words it, says that the call fails with an
  \<^verbatim>\<open>InvalidChannel\<close> error. It does not: for the channels 8 and \<open>-1\<close> the result is
  a normal return (\<open>Inr\<close>), of the value \<open>-1\<close>.
\<close>

theorem readAdc_invalid_no_error_counterexample:
  "\<not> isl (fst (readAdc (logged scripted) ([[0, 0, 0]], []) 8))
   \<and> fst (readAdc (logged scripted) ([[0, 0, 0]], []) 8) = Inr (- 1)
   \<and> \<not> isl (fst (readAdc (logged scripted) ([[0, 0, 0]], []) (- 1)))
   \<and> fst (readAdc (logged scripted) ([[0, 0, 0]], []) (- 1)) = Inr (- 1)"
  by (simp add: readAdc_def)

text \<open>
  Claim C8. For an out-of-range channel \<^verbatim>\<open>readAdc\<close> returns \<open>-1\<close>, which is outside
  \<open>0..4095\<close>; every value a call with a valid channel returns is inside \<open>0..4095\<close>,
  whatever the response, so the two results are never equal.
\<close>

theorem readAdc_sentinel_distinct:
  fixes xfer2 :: "('x, 'bus) transport" and xfer2' :: "('x, 'bus2) transport"
  assumes "c > 7 \<or> c < 0"
    and "0 \<le> c'" and "c' \<le> 7"
    and "fst (readAdc xfer2' spi' c') = Inr v"
  shows "fst (readAdc xfer2 spi c) = Inr (- 1)
       \<and> \<not> (0 \<le> (- 1 :: int) \<and> (- 1 :: int) \<le> 4095)
       \<and> 0 \<le> v \<and> v \<le> 4095
       \<and> fst (readAdc xfer2 spi c) \<noteq> fst (readAdc xfer2' spi' c')"
proof -
  have inv: "fst (readAdc xfer2 spi c) = Inr (- 1)"
    by (simp add: readAdc_invalid [OF assms(1)])
  from assms(4) obtain rcv where "rcvValue (map uint rcv) = (Inr v :: 'x exn + int)"
    and "fst (xfer2' spi' (sendBytes c')) = Inr rcv"
    by (auto simp add: readAdc_valid [OF assms(2,3)] split: sum.splits)
  then have "0 \<le> v \<and> v \<le> 4095"
    by (simp add: rcvValue_range)
  with inv assms(4) show ?thesis by simp
qed

theorem readAdc_sentinel_distinct_witness:
  "((9::int) > 7 \<or> (9::int) < 0) \<and> (0::int) \<le> 1 \<and> (1::int) \<le> 7
   \<and> fst (readAdc scripted [[0, 0, 0]] 1) = Inr 0
   \<and> fst (readAdc scripted [[0, 0, 0]] 9) = Inr (- 1)
   \<and> fst (readAdc scripted [[0, 0, 0]] 9) \<noteq> fst (readAdc scripted [[0, 0, 0]] 1)"
  using readAdc_sentinel_distinct [where c = 9 and c' = 1 and ?xfer2.0 = scripted
      and xfer2' = scripted and spi = "[[0, 0, 0]]" and spi' = "[[0, 0, 0]]" and v = 0]
  by (simp add: readAdc_def scripted_def rcvValue_3)

section \<open>Exchanges on the bus\<close>

text \<open>
  Claim C6. For a valid channel, one call of \<^verbatim>\<open>readAdc\<close> makes exactly one exchange:
  the log grows by the one three-byte frame of that channel and the handle is the one
  that exchange left. Nothing else is carried from call to call: with any other
  transport, handle and history whose exchange gives the same response, the result and
  the frame sent are the same.
\<close>

theorem readAdc_one_exchange:
  fixes xfer2 :: "('x, 'bus) transport" and xfer2' :: "('x, 'bus2) transport"
  assumes "0 \<le> c" and "c \<le> 7"
  shows "snd (readAdc (logged xfer2) (spi, log) c) =
           (snd (xfer2 spi (sendBytes c)), log @ [sendBytes c])
       \<and> length (sendBytes c) = 3
       \<and> (fst (xfer2' spi' (sendBytes c)) = fst (xfer2 spi (sendBytes c)) \<longrightarrow>
            fst (readAdc (logged xfer2') (spi', log') c) =
              fst (readAdc (logged xfer2) (spi, log) c)
            \<and> last (snd (snd (readAdc (logged xfer2') (spi', log') c))) =
              last (snd (snd (readAdc (logged xfer2) (spi, log) c))))"
  by (simp add: readAdc_logged_valid [OF assms] sendBytes_def)

theorem readAdc_one_exchange_witness:
  "(0::int) \<le> 2 \<and> (2::int) \<le> 7
   \<and> snd (readAdc (logged scripted) ([[9, 2, 3], [4, 5, 6]], [[6, 0, 0]]) 2) =
        ([[4, 5, 6]], [[6, 0, 0], [6, 0x80, 0]])
   \<and> fst (scripted [[9, 2, 3]] (sendBytes 2)) = fst (scripted [[9, 2, 3], [4, 5, 6]] (sendBytes 2))
   \<and> fst (readAdc (logged scripted) ([[9, 2, 3]], []) 2) = Inr 515
   \<and> fst (readAdc (logged scripted) ([[9, 2, 3], [4, 5, 6]], [[6, 0, 0]]) 2) = Inr 515"
  using readAdc_one_exchange [where c = 2 and ?xfer2.0 = scripted
      and spi = "[[9, 2, 3], [4, 5, 6]]" and log = "[[6, 0, 0]]"
      and xfer2' = scripted and spi' = "[[9, 2, 3]]" and log' = "[]"]
  by (simp add: scripted_def sendBytes_eq readAdc_def logged_def rcvValue_3)

text \<open>
  Claim C7. For a valid channel, when the exchange raises, \<^verbatim>\<open>readAdc\<close> raises the
  very same exception, and the exchange that failed is the only one made: no retry.
\<close>

theorem readAdc_transport_failure:
  assumes "0 \<le> c" and "c \<le> 7"
    and "fst (xfer2 spi (sendBytes c)) = Inl e"
  shows "readAdc (logged xfer2) (spi, log) c =
           (Inl e, (snd (xfer2 spi (sendBytes c)), log @ [sendBytes c]))"
  by (simp add: readAdc_logged_valid [OF assms(1,2)] assms(3))

theorem readAdc_transport_failure_witness:
  "(0::int) \<le> 4 \<and> (4::int) \<le> 7
   \<and> fst (scripted [] (sendBytes 4)) = Inl (Other ''EIO'')
   \<and> readAdc (logged scripted) ([], []) 4 = (Inl (Other ''EIO''), ([], [[7, 0, 0]]))"
  using readAdc_transport_failure [where c = 4 and ?xfer2.0 = scripted and spi = "[]"
      and log = "[]" and e = "Other ''EIO''"]
  by (simp add: scripted_def sendBytes_eq)

end
